theory Spec2Isabelle
  imports Complex_Main
begin

section \<open>Flappy Claude: configuration, entities and the per-frame update\<close>

text \<open>
  A shallow embedding of \<^verbatim>\<open>flappy_claude/config.py\<close>, \<^verbatim>\<open>flappy_claude/ipc.py\<close>
  and of the simulation part of \<^verbatim>\<open>flappy_claude/game.py\<close> (\<^verbatim>\<open>_is_pipe_at\<close>,
  \<^verbatim>\<open>spawn_pipe\<close>, \<^verbatim>\<open>update_game\<close>, \<^verbatim>\<open>handle_input\<close> and the readiness poll of
  \<^verbatim>\<open>run_game_loop\<close>).

  Conventions.
  \<^item> Python's unbounded \<^verbatim>\<open>int\<close> is \<^typ>\<open>int\<close>; \<^verbatim>\<open>//\<close> on integers is floor
    division, which is \<open>div\<close> on \<^typ>\<open>int\<close>.
  \<^item> Python's \<^verbatim>\<open>float\<close> is \<^typ>\<open>rat\<close>: the only float arithmetic the theorems below
    depend on is \<^verbatim>\<open>gap_y - gap_size / 2\<close> and \<^verbatim>\<open>gap_y + gap_size / 2\<close> on integers,
    which is exact in binary floating point for every magnitude below \<open>2^52\<close>.
  \<^item> In-place mutation of the state object is explicit state passing.
  \<^item> An exception is a value \<open>Inl e\<close> of a sum type.
  \<^item> The draw of \<^verbatim>\<open>random.randint\<close> is determined by an explicit entropy argument.
  \<^item> The high-score store is the value persisted at the configured path, \<open>None\<close> when
    nothing is persisted; whether a write reaches it is an explicit argument.
\<close>

subsection \<open>config.py\<close>

record Config =
  gravity :: rat
  flap_strength :: rat
  terminal_velocity :: rat
  pipe_speed :: int
  pipe_gap :: int
  pipe_spacing :: int
  pipe_width :: int
  fps :: int
  screen_width :: int
  screen_height :: int
  death_display_time :: rat
  high_score_path :: string
  signal_file_path :: string

definition DEFAULT_CONFIG :: Config where
  "DEFAULT_CONFIG =
     \<lparr> gravity = 1 / 2, flap_strength = - 2, terminal_velocity = 8,
       pipe_speed = 1, pipe_gap = 7, pipe_spacing = 25, pipe_width = 4,
       fps = 30, screen_width = 60, screen_height = 20,
       death_display_time = 1,
       high_score_path = ''~/.flappy-claude/highscore'',
       signal_file_path = ''/tmp/flappy-claude-signal'' \<rparr>"

subsection \<open>The entities the game module works on\<close>

text \<open>
  Modelled from the spec: the classes of \<^verbatim>\<open>flappy_claude/entities.py\<close> (\<^verbatim>\<open>Bird\<close>,
  \<^verbatim>\<open>Pipe\<close>, \<^verbatim>\<open>GameState\<close>, \<^verbatim>\<open>GameStatus\<close>, \<^verbatim>\<open>GameMode\<close>), which game.py imports.
  The fields are the attributes game.py reads and writes (\<^verbatim>\<open>state.bird.y\<close>,
  \<^verbatim>\<open>pipe.gap_y\<close>, \<^verbatim>\<open>pipe.passed\<close>, \<^verbatim>\<open>state.claude_ready\<close>, ...); the spec's data
  model lists the same ones. The attribute \<^verbatim>\<open>x\<close> of a bird and of a pipe are the
  fields \<open>bird_x\<close> and \<open>pipe_x\<close>.
\<close>

datatype GameStatus = PLAYING | DEAD | PROMPTED | EXITING

datatype GameMode = SINGLE_LIFE | AUTO_RESTART

record Bird =
  bird_x :: int
  bird_y :: rat
  velocity :: rat

record Pipe =
  pipe_x :: int
  gap_y :: int
  gap_size :: int
  passed :: bool

record GameState =
  bird :: Bird
  pipes :: "Pipe list"
  score :: int
  high_score :: int
  status :: GameStatus
  mode :: GameMode
  claude_ready :: bool

text \<open>
  Modelled from the spec: the constructor call \<^verbatim>\<open>Pipe(x=..., gap_y=..., gap_size=...)\<close>
  of \<^verbatim>\<open>spawn_pipe\<close>; the spec gives a fresh obstacle \<open>passed = false\<close>.
\<close>

definition new_Pipe :: "int \<Rightarrow> int \<Rightarrow> int \<Rightarrow> Pipe" where
  "new_Pipe x0 g gs = \<lparr> pipe_x = x0, gap_y = g, gap_size = gs, passed = False \<rparr>"

text \<open>
  Modelled from the spec: \<^verbatim>\<open>Pipe.update(config)\<close>, the spec's
  \<open>advance(obstacle, config)\<close>: \<open>x' = x - pipeSpeed\<close>.
\<close>

definition pipe_update :: "Pipe \<Rightarrow> Config \<Rightarrow> Pipe" where
  "pipe_update p cfg = p\<lparr> pipe_x := pipe_x p - pipe_speed cfg \<rparr>"

text \<open>
  Modelled from the spec: \<^verbatim>\<open>Pipe.mark_passed()\<close>: scoring sets \<open>passed = true\<close>.
\<close>

definition mark_passed :: "Pipe \<Rightarrow> Pipe" where
  "mark_passed p = p\<lparr> passed := True \<rparr>"

text \<open>
  Modelled from the spec: \<^verbatim>\<open>Bird.flap(config)\<close>: the velocity becomes the flap
  impulse, the row is left as it is.
\<close>

definition flap :: "Bird \<Rightarrow> Config \<Rightarrow> Bird" where
  "flap b cfg = b\<lparr> velocity := flap_strength cfg \<rparr>"

text \<open>
  Modelled from the spec: \<^verbatim>\<open>GameState.reset(config)\<close>: score to 0, obstacle
  collection cleared, bird back to its initial position and velocity, ready-flag
  cleared, status \<open>Playing\<close>; the high score is preserved. The initial bird is a
  constant of entities.py and is taken as the parameter \<open>b0\<close>.
\<close>

definition reset :: "Bird \<Rightarrow> GameState \<Rightarrow> Config \<Rightarrow> GameState" where
  "reset b0 s cfg =
     s\<lparr> bird := b0, pipes := [], score := 0, status := PLAYING, claude_ready := False \<rparr>"

text \<open>
  The functions game.py imports from \<^verbatim>\<open>flappy_claude/physics.py\<close>. Their code is
  not among the files embedded here, so \<^verbatim>\<open>update_game\<close> takes the module as a
  parameter: a record of the three functions, each with the argument list of its call
  in game.py.
\<close>

record Physics =
  apply_gravity :: "Bird \<Rightarrow> Config \<Rightarrow> Bird"
  check_collision :: "Bird \<Rightarrow> Pipe list \<Rightarrow> int \<Rightarrow> bool"
  check_pipe_passed :: "Bird \<Rightarrow> Pipe \<Rightarrow> bool"

text \<open>
  Modelled from the spec: \<^verbatim>\<open>save_high_score(path, value)\<close> of
  \<^verbatim>\<open>flappy_claude/scores.py\<close>: a synchronous write of one integer to the store at
  the configured path, best-effort: a write that fails is swallowed and leaves the
  store as it was. The argument \<open>ok\<close> says whether this write succeeds.
\<close>

definition save_high_score :: "bool \<Rightarrow> int option \<Rightarrow> int \<Rightarrow> int option" where
  "save_high_score ok store v = (if ok then Some v else store)"

subsection \<open>game.py: the cell test of an obstacle\<close>

text \<open>Python's \<^verbatim>\<open>int(f)\<close> on a float: truncation toward zero.\<close>

definition py_int :: "rat \<Rightarrow> int" where
  "py_int q = (if 0 \<le> q then \<lfloor>q\<rfloor> else \<lceil>q\<rceil>)"

text \<open>
  The two locals of \<^verbatim>\<open>_is_pipe_at\<close>:
  \<^verbatim>\<open>gap_top = int(pipe.gap_y - pipe.gap_size / 2)\<close> and
  \<^verbatim>\<open>gap_bottom = int(pipe.gap_y + pipe.gap_size / 2)\<close>, where \<^verbatim>\<open>/\<close> is true division.
\<close>

definition gap_top :: "Pipe \<Rightarrow> int" where
  "gap_top p = py_int (of_int (gap_y p) - of_int (gap_size p) / 2)"

definition gap_bottom :: "Pipe \<Rightarrow> int" where
  "gap_bottom p = py_int (of_int (gap_y p) + of_int (gap_size p) / 2)"

text \<open>\<^verbatim>\<open>_is_pipe_at(pipe, config, col, row)\<close>, game.py lines 187 to 210.\<close>

definition is_pipe_at :: "Pipe \<Rightarrow> Config \<Rightarrow> int \<Rightarrow> int \<Rightarrow> bool" where
  "is_pipe_at p cfg col row =
     (if col < pipe_x p \<or> col \<ge> pipe_x p + pipe_width cfg then False
      else if gap_top p \<le> row \<and> row \<le> gap_bottom p then False
      else True)"

subsection \<open>game.py: spawning an obstacle\<close>

datatype error = ValueError | OSError | UnicodeDecodeError

text \<open>
  \<^verbatim>\<open>random.randint(a, b)\<close>: raises \<^verbatim>\<open>ValueError\<close> on an empty range, and returns an
  integer of \<open>[a, b]\<close> otherwise. The entropy \<open>e\<close> selects the integer; every integer
  of the range is selected by some entropy.
\<close>

definition randint :: "int \<Rightarrow> int \<Rightarrow> nat \<Rightarrow> error + int" where
  "randint a b e = (if b < a then Inl ValueError else Inr (a + int e mod (b - a + 1)))"

text \<open>\<^verbatim>\<open>spawn_pipe(state, config)\<close>, game.py lines 213 to 229.\<close>

definition spawn_pipe :: "GameState \<Rightarrow> Config \<Rightarrow> nat \<Rightarrow> error + GameState" where
  "spawn_pipe s cfg e =
     (let margin = pipe_gap cfg div 2 + 2 in
      case randint margin (screen_height cfg - margin) e of
        Inl err \<Rightarrow> Inl err
      | Inr g \<Rightarrow>
          Inr (s\<lparr> pipes := pipes s @ [new_Pipe (screen_width cfg) g (pipe_gap cfg)] \<rparr>))"

subsection \<open>game.py: one frame\<close>

text \<open>
  The scoring loop of \<^verbatim>\<open>update_game\<close> (lines 258 to 267) over the obstacle list. It
  threads the score, the high score and the high-score store, and returns the list
  with the flags it has set. The argument \<open>io\<close> gives the outcome of the write of each
  value: the values written in one frame are distinct, so \<open>io\<close> fixes the outcome of
  every call of \<^verbatim>\<open>save_high_score\<close> on its own.
\<close>

fun score_pipes ::
  "Physics \<Rightarrow> (int \<Rightarrow> bool) \<Rightarrow> Bird \<Rightarrow> Pipe list \<Rightarrow> int \<Rightarrow> int \<Rightarrow> int option \<Rightarrow>
     Pipe list \<times> int \<times> int \<times> int option"
where
  "score_pipes ph io b [] sc hs store = ([], sc, hs, store)"
| "score_pipes ph io b (p # ps) sc hs store =
     (if \<not> passed p \<and> check_pipe_passed ph b p then
        (if sc + 1 > hs then
           (case score_pipes ph io b ps (sc + 1) (sc + 1)
                   (save_high_score (io (sc + 1)) store (sc + 1)) of
              (ps', r) \<Rightarrow> (mark_passed p # ps', r))
         else
           (case score_pipes ph io b ps (sc + 1) hs store of
              (ps', r) \<Rightarrow> (mark_passed p # ps', r)))
      else
        (case score_pipes ph io b ps sc hs store of
           (ps', r) \<Rightarrow> (p # ps', r)))"

text \<open>
  \<^verbatim>\<open>update_game(state, config)\<close>, game.py lines 232 to 271. The arguments \<open>e\<close>, \<open>io\<close>
  and \<open>store\<close> are the entropy of this frame's draw, the outcomes of this frame's
  writes and the high-score store; the result is the exception raised, or the new
  state and the new store.
\<close>

definition update_game ::
  "Physics \<Rightarrow> GameState \<Rightarrow> Config \<Rightarrow> nat \<Rightarrow> (int \<Rightarrow> bool) \<Rightarrow> int option \<Rightarrow>
     error + GameState \<times> int option"
where
  "update_game ph s cfg e io store =
     (if status s \<noteq> PLAYING then Inr (s, store)
      else
        let updated_bird = apply_gravity ph (bird s) cfg;
            s1 = s\<lparr> bird := (bird s)\<lparr> bird_y := bird_y updated_bird,
                                      velocity := velocity updated_bird \<rparr> \<rparr>;
            s2 = s1\<lparr> pipes := map (\<lambda>p. pipe_update p cfg) (pipes s1) \<rparr>;
            s3 = s2\<lparr> pipes := filter (\<lambda>p. pipe_x p > - pipe_width cfg) (pipes s2) \<rparr>
        in
          case (if pipes s3 = [] \<or>
                   pipe_x (last (pipes s3)) < screen_width cfg - pipe_spacing cfg
                then spawn_pipe s3 cfg e else Inr s3) of
            Inl err \<Rightarrow> Inl err
          | Inr s4 \<Rightarrow>
              (case score_pipes ph io (bird s4) (pipes s4) (score s4) (high_score s4) store of
                 (ps, sc, hs, store') \<Rightarrow>
                   let s5 = s4\<lparr> pipes := ps, score := sc, high_score := hs \<rparr> in
                   if check_collision ph (bird s5) (pipes s5) (screen_height cfg)
                   then Inr (s5\<lparr> status := DEAD \<rparr>, store')
                   else Inr (s5, store')))"

subsection \<open>game.py: keyboard input\<close>

text \<open>
  \<^verbatim>\<open>str.lower()\<close> on the key read from the terminal. A \<^typ>\<open>char\<close> holds a code
  point below 256: the letters \<open>A\<close> to \<open>Z\<close> (codes 65 to 90) and the accented capitals
  of Latin-1 (codes 192 to 222 without the multiplication sign 215) go to the letter
  32 codes higher, every other character is unchanged. Keys beyond code 255 are not
  represented.
\<close>

definition lower_char :: "char \<Rightarrow> char" where
  "lower_char c =
     (if ((65::nat) \<le> of_char c \<and> of_char c \<le> (90::nat)) \<or>
         ((192::nat) \<le> of_char c \<and> of_char c \<le> (222::nat) \<and> of_char c \<noteq> (215::nat))
      then char_of (of_char c + (32::nat)) else c)"

definition lower :: "string \<Rightarrow> string" where
  "lower k = map lower_char k"

text \<open>
  \<^verbatim>\<open>handle_input(state, config, key)\<close>, game.py lines 274 to 296. The key is
  \<open>None\<close> or the string read; \<^verbatim>\<open>"\x03"\<close> is the character with code 3.
\<close>

definition handle_input :: "GameState \<Rightarrow> Config \<Rightarrow> string option \<Rightarrow> GameState" where
  "handle_input s cfg key =
     (case key of
        None \<Rightarrow> s
      | Some k \<Rightarrow>
          let key_lower = lower k in
          if key_lower = ''q'' \<or> k = [char_of (3::nat)] then s\<lparr> status := EXITING \<rparr>
          else if k = '' '' \<and> status s = PLAYING then s\<lparr> bird := flap (bird s) cfg \<rparr>
          else if (key_lower = ''y'' \<or> key_lower = ''n'') \<and> status s = PROMPTED then
            (if key_lower = ''y'' then s\<lparr> status := EXITING \<rparr>
             else s\<lparr> claude_ready := False, status := PLAYING \<rparr>)
          else s)"

subsection \<open>ipc.py: the readiness signal\<close>

text \<open>
  What the file system holds at the signal path, as far as \<^verbatim>\<open>check_signal_file\<close>
  can observe it: \<^verbatim>\<open>path.exists()\<close> answers or raises \<^verbatim>\<open>OSError\<close>, and
  \<^verbatim>\<open>path.read_text()\<close> returns the decoded text, raises \<^verbatim>\<open>OSError\<close> (the file is
  unreadable, is a directory, or was removed in between), or raises
  \<^verbatim>\<open>UnicodeDecodeError\<close> (the bytes of the file are not valid in the default
  encoding). \<^verbatim>\<open>IOError\<close> is an alias of \<^verbatim>\<open>OSError\<close>; \<^verbatim>\<open>UnicodeDecodeError\<close> is
  a subclass of \<^verbatim>\<open>ValueError\<close> and not of \<^verbatim>\<open>OSError\<close>.
\<close>

datatype read_outcome = Content string | ReadRaisesOSError | ReadRaisesUnicodeDecodeError

datatype signal_path = Absent | ExistsRaisesOSError | Present read_outcome

definition path_exists :: "signal_path \<Rightarrow> error + bool" where
  "path_exists f =
     (case f of Absent \<Rightarrow> Inr False | ExistsRaisesOSError \<Rightarrow> Inl OSError | Present r \<Rightarrow> Inr True)"

definition read_text :: "signal_path \<Rightarrow> error + string" where
  "read_text f =
     (case f of
        Present (Content t) \<Rightarrow> Inr t
      | Present ReadRaisesUnicodeDecodeError \<Rightarrow> Inl UnicodeDecodeError
      | Present ReadRaisesOSError \<Rightarrow> Inl OSError
      | Absent \<Rightarrow> Inl OSError
      | ExistsRaisesOSError \<Rightarrow> Inl OSError)"

text \<open>
  \<^verbatim>\<open>str.strip()\<close>: leading and trailing whitespace removed. The whitespace
  characters below code 256 are the codes 9 to 13, 28 to 32, 133 and 160.
\<close>

definition is_space :: "char \<Rightarrow> bool" where
  "is_space c =
     (((9::nat) \<le> of_char c \<and> of_char c \<le> (13::nat)) \<or>
      ((28::nat) \<le> of_char c \<and> of_char c \<le> (32::nat)) \<or>
      of_char c = (133::nat) \<or> of_char c = (160::nat))"

definition strip :: "string \<Rightarrow> string" where
  "strip t = rev (dropWhile is_space (rev (dropWhile is_space t)))"

text \<open>The body of the \<^verbatim>\<open>try\<close> block of \<^verbatim>\<open>check_signal_file\<close>, ipc.py lines 16 to 20.\<close>

definition check_signal_file_body :: "signal_path \<Rightarrow> error + bool" where
  "check_signal_file_body f =
     (case path_exists f of
        Inl err \<Rightarrow> Inl err
      | Inr ex \<Rightarrow>
          if \<not> ex then Inr False
          else (case read_text f of
                  Inl err \<Rightarrow> Inl err
                | Inr content \<Rightarrow> Inr (strip content = ''ready'')))"

text \<open>
  \<^verbatim>\<open>check_signal_file(path)\<close>, ipc.py lines 6 to 22: the body under
  \<^verbatim>\<open>except (OSError, IOError): return False\<close>. Any other exception propagates.
\<close>

definition check_signal_file :: "signal_path \<Rightarrow> error + bool" where
  "check_signal_file f =
     (case check_signal_file_body f of
        Inl OSError \<Rightarrow> Inr False
      | Inl err \<Rightarrow> Inl err
      | Inr r \<Rightarrow> Inr r)"

text \<open>
  The readiness poll of \<^verbatim>\<open>run_game_loop\<close>, game.py lines 357 to 361; \<open>signal_file\<close>
  is \<open>None\<close> when the loop was started without a signal file.
\<close>

definition poll_signal :: "GameState \<Rightarrow> signal_path option \<Rightarrow> error + GameState" where
  "poll_signal s signal_file =
     (case signal_file of
        None \<Rightarrow> Inr s
      | Some f \<Rightarrow>
          if status s = PLAYING then
            (if \<not> claude_ready s then
               (case check_signal_file f of
                  Inl err \<Rightarrow> Inl err
                | Inr r \<Rightarrow>
                    if r then Inr (s\<lparr> claude_ready := True, status := PROMPTED \<rparr>)
                    else Inr s)
             else Inr s)
          else Inr s)"

subsection \<open>The physics module, from the spec\<close>

text \<open>
  Modelled from the spec: \<^verbatim>\<open>apply_gravity(bird, config)\<close> of
  \<^verbatim>\<open>flappy_claude/physics.py\<close>, the spec's \<open>applyGravity\<close>:
  \<open>velocity' = min(velocity + gravity, terminalVelocity)\<close> and \<open>y' = y + velocity'\<close>.
\<close>

definition applyGravity :: "Bird \<Rightarrow> Config \<Rightarrow> Bird" where
  "applyGravity b cfg =
     (let v = min (velocity b + gravity cfg) (terminal_velocity cfg)
      in b\<lparr> bird_y := bird_y b + v, velocity := v \<rparr>)"

text \<open>
  Modelled from the spec: the gap band of an obstacle, the rows in which a bird in
  its columns does not collide: \<open>[gapCenter - gapSize/2, gapCenter + gapSize/2]\<close>
  with floor-divided halves (for a gap size that is not negative, flooring and
  truncation toward zero are the same).
\<close>

definition band_top :: "Pipe \<Rightarrow> int" where
  "band_top p = gap_y p - gap_size p div 2"

definition band_bottom :: "Pipe \<Rightarrow> int" where
  "band_bottom p = gap_y p + gap_size p div 2"

text \<open>
  Modelled from the spec: \<open>isInsideObstacle(bird, obstacle, config)\<close>, the test of
  \<^verbatim>\<open>check_collision\<close> of \<^verbatim>\<open>flappy_claude/physics.py\<close> against one obstacle: true iff
  the bird's column falls within \<open>[obstacle.x, obstacle.x + width)\<close> and the bird's
  row falls outside the gap band; rows exactly on the gap edges count as open. The
  bird's row is its real-valued vertical position.
\<close>

definition isInsideObstacle :: "Bird \<Rightarrow> Pipe \<Rightarrow> Config \<Rightarrow> bool" where
  "isInsideObstacle b p cfg =
     (pipe_x p \<le> bird_x b \<and> bird_x b < pipe_x p + pipe_width cfg \<and>
      (bird_y b < of_int (band_top p) \<or> of_int (band_bottom p) < bird_y b))"

text \<open>
  Modelled from the spec: \<^verbatim>\<open>check_collision(bird, pipes, screen_height)\<close> of
  \<^verbatim>\<open>flappy_claude/physics.py\<close>, the spec's \<open>checkCollision\<close>: true if the bird's row is
  \<open>< 0\<close> or \<open>> fieldHeight - 1\<close>, or \<open>isInsideObstacle\<close> is true for any live obstacle.
  The obstacle width is the configuration's, as in \<open>isInsideObstacle\<close>.
\<close>

definition checkCollision :: "Config \<Rightarrow> Bird \<Rightarrow> Pipe list \<Rightarrow> int \<Rightarrow> bool" where
  "checkCollision cfg b ps h =
     (bird_y b < 0 \<or> bird_y b > of_int h - 1 \<or> list_ex (\<lambda>p. isInsideObstacle b p cfg) ps)"

text \<open>
  Modelled from the spec: \<^verbatim>\<open>check_pipe_passed(bird, pipe)\<close> of
  \<^verbatim>\<open>flappy_claude/physics.py\<close>, the spec's \<open>checkPassed\<close>: the bird's column is
  strictly past the trailing edge, \<open>bird.x > obstacle.x + width - 1\<close>, and the flag is
  still false.
\<close>

definition checkPassed :: "Config \<Rightarrow> Bird \<Rightarrow> Pipe \<Rightarrow> bool" where
  "checkPassed cfg b p = (bird_x b > pipe_x p + pipe_width cfg - 1 \<and> \<not> passed p)"

definition physics_of_spec :: "Config \<Rightarrow> Physics" where
  "physics_of_spec cfg =
     \<lparr> apply_gravity = applyGravity,
       check_collision = checkCollision cfg,
       check_pipe_passed = checkPassed cfg \<rparr>"

subsection \<open>Sessions\<close>





subsection \<open>Concrete states for the examples\<close>

definition demo_bird :: Bird where
  "demo_bird = \<lparr> bird_x = 10, bird_y = 10, velocity = 0 \<rparr>"

definition demo_state :: "Pipe list \<Rightarrow> GameStatus \<Rightarrow> GameState" where
  "demo_state ps st =
     \<lparr> bird = demo_bird, pipes = ps, score = 0, high_score = 0, status = st,
       mode = AUTO_RESTART, claude_ready = False \<rparr>"

definition demo_flying :: Bird where
  "demo_flying = \<lparr> bird_x = 10, bird_y = 21 / 2, velocity = 1 / 2 \<rparr>"

definition demo_pass_before :: GameState where
  "demo_pass_before =
     (demo_state [mark_passed (new_Pipe 3 8 7), new_Pipe 7 10 7, new_Pipe 40 9 7] PLAYING)
       \<lparr> score := 4, high_score := 4 \<rparr>"

definition demo_pass_after :: GameState where
  "demo_pass_after =
     (demo_state [mark_passed (new_Pipe 2 8 7), mark_passed (new_Pipe 6 10 7), new_Pipe 39 9 7]
        PLAYING)
       \<lparr> bird := demo_flying, score := 5, high_score := 5 \<rparr>"

subsection \<open>Names for the stages of a frame\<close>

text \<open>
  The guard of the scoring loop, game.py line 260, and the number of obstacles of a
  list that meet it: the pass events of the frame.
\<close>

definition pass_event :: "Physics \<Rightarrow> Bird \<Rightarrow> Pipe \<Rightarrow> bool" where
  "pass_event ph b p = (\<not> passed p \<and> check_pipe_passed ph b p)"

definition pass_events :: "Physics \<Rightarrow> Bird \<Rightarrow> Pipe list \<Rightarrow> int" where
  "pass_events ph b ps = int (length (filter (pass_event ph b) ps))"

text \<open>
  The geometry of an obstacle: its fields other than the flag.
\<close>

definition geometry :: "Pipe \<Rightarrow> int \<times> int \<times> int" where
  "geometry p = (pipe_x p, gap_y p, gap_size p)"

text \<open>The bird after lines 243 to 245 of \<^verbatim>\<open>update_game\<close>.\<close>

definition moved_bird :: "Physics \<Rightarrow> GameState \<Rightarrow> Config \<Rightarrow> Bird" where
  "moved_bird ph s cfg =
     (bird s)\<lparr> bird_y := bird_y (apply_gravity ph (bird s) cfg),
               velocity := velocity (apply_gravity ph (bird s) cfg) \<rparr>"

text \<open>
  The obstacle list after lines 248 to 252: every obstacle advanced, the off-screen
  ones removed.
\<close>

definition live_pipes :: "GameState \<Rightarrow> Config \<Rightarrow> Pipe list" where
  "live_pipes s cfg =
     filter (\<lambda>p. pipe_x p > - pipe_width cfg) (map (\<lambda>p. pipe_update p cfg) (pipes s))"

text \<open>The condition of line 255.\<close>

definition spawn_due :: "Config \<Rightarrow> Pipe list \<Rightarrow> bool" where
  "spawn_due cfg ps = (ps = [] \<or> pipe_x (last ps) < screen_width cfg - pipe_spacing cfg)"

text \<open>
  The obstacle list after line 256, when the scoring loop starts, or the exception of
  the draw.
\<close>

definition frame_pipes :: "GameState \<Rightarrow> Config \<Rightarrow> nat \<Rightarrow> error + Pipe list" where
  "frame_pipes s cfg e =
     (if spawn_due cfg (live_pipes s cfg) then
        (case randint (pipe_gap cfg div 2 + 2) (screen_height cfg - (pipe_gap cfg div 2 + 2)) e of
           Inl err \<Rightarrow> Inl err
         | Inr g \<Rightarrow> Inr (live_pipes s cfg @ [new_Pipe (screen_width cfg) g (pipe_gap cfg)]))
      else Inr (live_pipes s cfg))"

text \<open>The store after the writes of a list of values, in their order.\<close>

fun write_all :: "(int \<Rightarrow> bool) \<Rightarrow> int option \<Rightarrow> int list \<Rightarrow> int option" where
  "write_all io store [] = store"
| "write_all io store (v # vs) = write_all io (save_high_score (io v) store v) vs"

text \<open>The obstacle list the scoring loop leaves.\<close>

definition scored :: "Physics \<Rightarrow> Bird \<Rightarrow> Pipe list \<Rightarrow> Pipe list" where
  "scored ph b ps = map (\<lambda>p. if pass_event ph b p then mark_passed p else p) ps"

section \<open>Properties\<close>

subsection \<open>Arithmetic of the gap bounds\<close>

lemma py_int_halves:
  "py_int (of_int n / 2) = (if 0 \<le> n then n div 2 else - ((- n) div 2))"
proof -
  have "py_int (of_int n / of_int 2) = (if 0 \<le> n then n div 2 else - ((- n) div 2))"
    unfolding py_int_def
    by (simp add: floor_divide_of_int_eq ceiling_divide_eq_div del: of_int_numeral)
  then show ?thesis by simp
qed

lemma gap_top_int:
  "gap_top p =
     (if gap_size p \<le> 2 * gap_y p then (2 * gap_y p - gap_size p) div 2
      else - ((gap_size p - 2 * gap_y p) div 2))"
proof -
  have "(of_int (gap_y p) :: rat) - of_int (gap_size p) / 2
          = of_int (2 * gap_y p - gap_size p) / 2"
    by (simp add: field_simps)
  then show ?thesis
    unfolding gap_top_def by (simp only: py_int_halves) simp
qed

lemma gap_bottom_int:
  "gap_bottom p =
     (if 0 \<le> 2 * gap_y p + gap_size p then (2 * gap_y p + gap_size p) div 2
      else - ((- (2 * gap_y p + gap_size p)) div 2))"
proof -
  have "(of_int (gap_y p) :: rat) + of_int (gap_size p) / 2
          = of_int (2 * gap_y p + gap_size p) / 2"
    by (simp add: field_simps)
  then show ?thesis
    unfolding gap_bottom_def by (simp only: py_int_halves)
qed

subsection \<open>Frames outside play\<close>

text \<open>
  Claim C10. For every state whose status is not \<open>PLAYING\<close> (\<open>DEAD\<close>, \<open>PROMPTED\<close> or
  \<open>EXITING\<close>), \<open>update_game\<close> returns normally with the state it was given: bird,
  obstacle list, score, high score, status, mode and ready-flag are those of the
  input, and the high-score store is the one given, so nothing was written.
\<close>

theorem update_game_not_playing:
  assumes "status s \<noteq> PLAYING"
  shows "update_game ph s cfg e io store = Inr (s, store)"
  using assms by (simp add: update_game_def)

theorem update_game_not_playing_witness:
  "update_game (physics_of_spec DEFAULT_CONFIG)
     (demo_state [new_Pipe 30 10 7] PROMPTED) DEFAULT_CONFIG 0 (\<lambda>v. True) (Some 3)
   = Inr (demo_state [new_Pipe 30 10 7] PROMPTED, Some 3)"
proof -
  have h: "status (demo_state [new_Pipe 30 10 7] PROMPTED) \<noteq> PLAYING"
    by (simp add: demo_state_def)
  show ?thesis by (rule update_game_not_playing [OF h])
qed

subsection \<open>The frame in closed form\<close>

lemma score_pipes_closed:
  "score_pipes ph io b ps sc hs store =
     (map (\<lambda>p. if pass_event ph b p then mark_passed p else p) ps,
      sc + pass_events ph b ps,
      (if pass_events ph b ps = 0 then hs else max hs (sc + pass_events ph b ps)),
      write_all io store [max (sc + 1) (hs + 1) .. sc + pass_events ph b ps])"
proof (induction ps arbitrary: sc hs store)
  case Nil
  then show ?case by (simp add: pass_events_def)
next
  case (Cons p ps)
  define K where "K = pass_events ph b ps"
  have k0: "0 \<le> K" by (simp add: K_def pass_events_def)
  show ?case
  proof (cases "pass_event ph b p")
    case False
    then have "pass_events ph b (p # ps) = K"
      by (simp add: pass_events_def K_def)
    with False show ?thesis
      by (simp add: Cons.IH pass_event_def K_def)
  next
    case True
    then have k: "pass_events ph b (p # ps) = K + 1"
      by (simp add: pass_events_def K_def)
    have guard: "\<not> passed p \<and> check_pipe_passed ph b p"
      using True by (simp add: pass_event_def)
    show ?thesis
    proof (cases "sc + 1 > hs")
      case gt: True
      have hi: "(if K = 0 then sc + 1 else max (sc + 1) (sc + 1 + K)) = max hs (sc + (K + 1))"
        using gt k0 by (simp add: max_def)
      have u: "[sc + 1 .. sc + (K + 1)] = (sc + 1) # [sc + 1 + 1 .. sc + (K + 1)]"
        using k0 by (subst upto_rec1) simp_all
      have m: "max (sc + 1) (hs + 1) = sc + 1" using gt by simp
      have mm: "max (sc + 1 + 1) (sc + 1 + 1) = sc + 1 + 1" by simp
      have e1: "sc + 1 + K = sc + (K + 1)" by simp
      have ws: "write_all io (save_high_score (io (sc + 1)) store (sc + 1))
                  [max (sc + 1 + 1) (sc + 1 + 1) .. sc + 1 + K]
          = write_all io store [max (sc + 1) (hs + 1) .. sc + (K + 1)]"
        by (simp only: m mm e1 u write_all.simps)
      have "score_pipes ph io b (p # ps) sc hs store =
              (mark_passed p # map (\<lambda>p. if pass_event ph b p then mark_passed p else p) ps,
               sc + 1 + K,
               (if K = 0 then sc + 1 else max (sc + 1) (sc + 1 + K)),
               write_all io (save_high_score (io (sc + 1)) store (sc + 1))
                 [max (sc + 1 + 1) (sc + 1 + 1) .. sc + 1 + K])"
        using guard gt by (simp add: Cons.IH K_def)
      also have "\<dots> = (map (\<lambda>p. if pass_event ph b p then mark_passed p else p) (p # ps),
               sc + (K + 1),
               max hs (sc + (K + 1)),
               write_all io store [max (sc + 1) (hs + 1) .. sc + (K + 1)])"
        using True by (simp only: hi ws) simp
      finally show ?thesis using k k0 by simp
    next
      case le: False
      have hi: "(if K = 0 then hs else max hs (sc + 1 + K)) = max hs (sc + (K + 1))"
        using le k0 by (simp add: max_def)
      have e1: "sc + 1 + K = sc + (K + 1)" by simp
      have m: "max (sc + 1 + 1) (hs + 1) = max (sc + 1) (hs + 1)" using le by simp
      have ws: "[max (sc + 1 + 1) (hs + 1) .. sc + 1 + K] = [max (sc + 1) (hs + 1) .. sc + (K + 1)]"
        by (simp only: m e1)
      have "score_pipes ph io b (p # ps) sc hs store =
              (mark_passed p # map (\<lambda>p. if pass_event ph b p then mark_passed p else p) ps,
               sc + 1 + K,
               (if K = 0 then hs else max hs (sc + 1 + K)),
               write_all io store [max (sc + 1 + 1) (hs + 1) .. sc + 1 + K])"
        using guard le by (simp add: Cons.IH K_def)
      also have "\<dots> = (map (\<lambda>p. if pass_event ph b p then mark_passed p else p) (p # ps),
               sc + (K + 1),
               max hs (sc + (K + 1)),
               write_all io store [max (sc + 1) (hs + 1) .. sc + (K + 1)])"
        using True by (simp only: hi ws) simp
      finally show ?thesis using k k0 by simp
    qed
  qed
qed


lemma frame_state:
  "(let updated_bird = apply_gravity ph (bird s) cfg;
        s1 = s\<lparr> bird := (bird s)\<lparr> bird_y := bird_y updated_bird,
                                  velocity := velocity updated_bird \<rparr> \<rparr>;
        s2 = s1\<lparr> pipes := map (\<lambda>p. pipe_update p cfg) (pipes s1) \<rparr>;
        s3 = s2\<lparr> pipes := filter (\<lambda>p. pipe_x p > - pipe_width cfg) (pipes s2) \<rparr>
    in f s3) = f (s\<lparr> bird := moved_bird ph s cfg, pipes := live_pipes s cfg \<rparr>)"
  by (simp add: Let_def moved_bird_def live_pipes_def)

lemma spawn_stage:
  "(if pipes (s\<lparr> bird := b, pipes := live_pipes s cfg \<rparr>) = [] \<or>
       pipe_x (last (pipes (s\<lparr> bird := b, pipes := live_pipes s cfg \<rparr>)))
         < screen_width cfg - pipe_spacing cfg
    then spawn_pipe (s\<lparr> bird := b, pipes := live_pipes s cfg \<rparr>) cfg e
    else Inr (s\<lparr> bird := b, pipes := live_pipes s cfg \<rparr>))
   = (case frame_pipes s cfg e of
        Inl err \<Rightarrow> Inl err
      | Inr ps \<Rightarrow> Inr (s\<lparr> bird := b, pipes := ps \<rparr>))"
  by (simp add: frame_pipes_def spawn_due_def spawn_pipe_def Let_def split: sum.splits)

lemma update_game_stages:
  assumes "status s = PLAYING"
  shows "update_game ph s cfg e io store =
     (case frame_pipes s cfg e of
        Inl err \<Rightarrow> Inl err
      | Inr ps \<Rightarrow>
          (case score_pipes ph io (moved_bird ph s cfg) ps (score s) (high_score s) store of
             (ps', sc, hs, store') \<Rightarrow>
               if check_collision ph (moved_bird ph s cfg) ps' (screen_height cfg)
               then Inr (s\<lparr> bird := moved_bird ph s cfg, pipes := ps', score := sc,
                            high_score := hs, status := DEAD \<rparr>, store')
               else Inr (s\<lparr> bird := moved_bird ph s cfg, pipes := ps', score := sc,
                            high_score := hs \<rparr>, store')))"
proof -
  have "update_game ph s cfg e io store =
      (case (case frame_pipes s cfg e of
               Inl err \<Rightarrow> Inl err
             | Inr ps \<Rightarrow> Inr (s\<lparr> bird := moved_bird ph s cfg, pipes := ps \<rparr>)) of
         Inl err \<Rightarrow> Inl err
       | Inr s4 \<Rightarrow>
           (case score_pipes ph io (bird s4) (pipes s4) (score s4) (high_score s4) store of
              (ps, sc, hs, store') \<Rightarrow>
                let s5 = s4\<lparr> pipes := ps, score := sc, high_score := hs \<rparr> in
                if check_collision ph (bird s5) (pipes s5) (screen_height cfg)
                then Inr (s5\<lparr> status := DEAD \<rparr>, store')
                else Inr (s5, store')))"
    unfolding update_game_def using assms
    by (simp only: frame_state spawn_stage) simp
  then show ?thesis
    by (simp add: Let_def split: sum.splits prod.splits)
qed


lemma update_game_playing_error:
  assumes "status s = PLAYING" and "frame_pipes s cfg e = Inl err"
  shows "update_game ph s cfg e io store = Inl err"
  by (simp add: update_game_stages [OF assms(1)] assms(2))

lemma update_game_playing:
  assumes "status s = PLAYING" and "frame_pipes s cfg e = Inr ps"
  shows "update_game ph s cfg e io store =
     Inr (s\<lparr> bird := moved_bird ph s cfg,
             pipes := scored ph (moved_bird ph s cfg) ps,
             score := score s + pass_events ph (moved_bird ph s cfg) ps,
             high_score :=
               (if pass_events ph (moved_bird ph s cfg) ps = 0 then high_score s
                else max (high_score s) (score s + pass_events ph (moved_bird ph s cfg) ps)),
             status :=
               (if check_collision ph (moved_bird ph s cfg)
                     (scored ph (moved_bird ph s cfg) ps) (screen_height cfg)
                then DEAD else PLAYING) \<rparr>,
          write_all io store [max (score s + 1) (high_score s + 1) ..
                   score s + pass_events ph (moved_bird ph s cfg) ps])"
proof -
  have st: "\<And>b ps sc hs. s\<lparr> bird := b, pipes := ps, score := sc, high_score := hs \<rparr>
      = s\<lparr> bird := b, pipes := ps, score := sc, high_score := hs, status := PLAYING \<rparr>"
    using assms(1) by (cases s) simp
  show ?thesis
    unfolding update_game_stages [OF assms(1)] assms(2) score_pipes_closed scored_def [symmetric]
    using st by simp
qed

lemma frame_pipes_cases:
  "frame_pipes s cfg e = Inl ValueError \<and>
     screen_height cfg - (pipe_gap cfg div 2 + 2) < pipe_gap cfg div 2 + 2 \<and>
     spawn_due cfg (live_pipes s cfg)
   \<or> frame_pipes s cfg e = Inr (live_pipes s cfg) \<and> \<not> spawn_due cfg (live_pipes s cfg)
   \<or> (\<exists>g. frame_pipes s cfg e
            = Inr (live_pipes s cfg @ [new_Pipe (screen_width cfg) g (pipe_gap cfg)]) \<and>
          spawn_due cfg (live_pipes s cfg) \<and>
          pipe_gap cfg div 2 + 2 \<le> g \<and> g \<le> screen_height cfg - (pipe_gap cfg div 2 + 2))"
proof -
  define m where "m = pipe_gap cfg div 2 + 2"
  define h where "h = screen_height cfg"
  have r: "h - m < m \<and> randint m (h - m) e = Inl ValueError
        \<or> (\<exists>g. randint m (h - m) e = Inr g \<and> m \<le> g \<and> g \<le> h - m)"
  proof (cases "h - m < m")
    case True then show ?thesis by (simp add: randint_def)
  next
    case False
    define n where "n = h - m - m + 1"
    have n: "0 < n" using False by (simp add: n_def)
    have "0 \<le> int e mod n" and "int e mod n < n"
      using n by (rule pos_mod_sign, rule pos_mod_bound)
    moreover have "randint m (h - m) e = Inr (m + int e mod n)"
      using False by (simp add: randint_def n_def)
    ultimately show ?thesis by (simp add: n_def)
  qed
  show ?thesis
    using r unfolding frame_pipes_def m_def [symmetric] h_def [symmetric]
    by (auto split: sum.splits)
qed

lemma geometry_scored: "map geometry (scored ph b ps) = map geometry ps"
  by (induction ps) (simp_all add: scored_def geometry_def mark_passed_def)


lemma live_pipes_spelled:
  "live_pipes s cfg =
     filter (\<lambda>p. \<not> pipe_x p \<le> - pipe_width cfg)
       (map (\<lambda>p. p\<lparr> pipe_x := pipe_x p - pipe_speed cfg \<rparr>) (pipes s))"
  by (simp add: live_pipes_def pipe_update_def not_le)

lemma update_game_fields:
  assumes "status s = PLAYING" and "frame_pipes s cfg e = Inr ps"
  obtains s' store' where
    "update_game ph s cfg e io store = Inr (s', store')"
    "pipes s' = scored ph (moved_bird ph s cfg) ps"
    "score s' = score s + pass_events ph (moved_bird ph s cfg) ps"
    "high_score s' =
       (if pass_events ph (moved_bird ph s cfg) ps = 0 then high_score s
        else max (high_score s) (score s + pass_events ph (moved_bird ph s cfg) ps))"
    "store' = write_all io store [max (score s + 1) (high_score s + 1) ..
                       score s + pass_events ph (moved_bird ph s cfg) ps]"
    "bird s' = moved_bird ph s cfg"
    "mode s' = mode s" "claude_ready s' = claude_ready s"
    "status s' =
       (if check_collision ph (moved_bird ph s cfg)
             (scored ph (moved_bird ph s cfg) ps) (screen_height cfg)
        then DEAD else PLAYING)"
proof -
  note ug = update_game_playing [OF assms, of ph io store]
  show thesis
    by (rule that [OF ug]) simp_all
qed

subsection \<open>Evaluated frames\<close>

text \<open>
  Keys, and frames of the default configuration evaluated in full with the physics as
  the spec describes it. The later sections apply their theorems to these frames.
\<close>

lemma key_facts:
  "lower ''n'' = ''n''" "lower ''N'' = ''n''" "lower ''y'' = ''y''" "lower ''Y'' = ''y''"
  "[char_of (3::nat)] = [CHR 0x03]"
  by code_simp+

lemmas frame_eval =
  update_game_def physics_of_spec_def demo_state_def demo_bird_def new_Pipe_def
  DEFAULT_CONFIG_def pipe_update_def spawn_pipe_def randint_def applyGravity_def
  checkCollision_def checkPassed_def isInsideObstacle_def band_top_def band_bottom_def
  Let_def reset_def mark_passed_def save_high_score_def
  demo_flying_def demo_pass_before_def demo_pass_after_def

lemma demo_frame:
  "update_game (physics_of_spec DEFAULT_CONFIG) (demo_state [new_Pipe 35 10 7] PLAYING)
       DEFAULT_CONFIG 0 (\<lambda>v. True) None
     = Inr ((demo_state [new_Pipe 34 10 7, new_Pipe 60 5 7] PLAYING) \<lparr> bird := demo_flying \<rparr>,
            None)"
  by (simp add: frame_eval)

lemma demo_pass_frame:
  "update_game (physics_of_spec DEFAULT_CONFIG) demo_pass_before DEFAULT_CONFIG 0 (\<lambda>v. True)
       (Some 4)
     = Inr (demo_pass_after, Some 5)"
  by (simp add: frame_eval)







lemma demo_land_7:
  "update_game (physics_of_spec DEFAULT_CONFIG)
     ((demo_state [new_Pipe 10 10 7] PLAYING) \<lparr> bird := \<lparr> bird_x = 10, bird_y = 13 / 2, velocity = 0 \<rparr> \<rparr>)
     DEFAULT_CONFIG 0 (\<lambda>v. True) None
   = Inr ((demo_state [new_Pipe 9 10 7, new_Pipe 60 5 7] PLAYING)
            \<lparr> bird := \<lparr> bird_x = 10, bird_y = 7, velocity = 1 / 2 \<rparr> \<rparr>, None)"
  by (simp add: update_game_def physics_of_spec_def demo_state_def demo_bird_def new_Pipe_def
        DEFAULT_CONFIG_def pipe_update_def spawn_pipe_def randint_def applyGravity_def
        checkCollision_def checkPassed_def isInsideObstacle_def band_top_def band_bottom_def
        Let_def)


subsection \<open>The order of the obstacle sequence\<close>

lemma update_game_idle:
  "status s \<noteq> PLAYING \<Longrightarrow> update_game ph s cfg e io store = Inr (s, store)"
  by (simp add: update_game_def)

lemma pipe_x_scored: "map pipe_x (scored ph b ps) = map pipe_x ps"
  by (induction ps) (simp_all add: scored_def mark_passed_def)

lemma live_pipes_sorted:
  assumes "sorted_wrt (<) (map pipe_x (pipes s))"
  shows "sorted_wrt (<) (map pipe_x (live_pipes s cfg))"
proof -
  have "sorted_wrt (\<lambda>p q. pipe_x p < pipe_x q) (pipes s)"
    using assms by (simp add: sorted_wrt_map)
  then have "sorted_wrt (\<lambda>p q. pipe_x p < pipe_x q) (map (\<lambda>p. pipe_update p cfg) (pipes s))"
    by (simp add: sorted_wrt_map pipe_update_def)
  then have "sorted_wrt (\<lambda>p q. pipe_x p < pipe_x q) (live_pipes s cfg)"
    unfolding live_pipes_def by (rule sorted_wrt_filter)
  then show ?thesis by (simp add: sorted_wrt_map)
qed

lemma sorted_le_last:
  assumes "sorted_wrt (<) (map pipe_x ps)" and "p \<in> set ps"
  shows "pipe_x p \<le> pipe_x (last ps)"
  using assms
proof (induction ps)
  case Nil
  then show ?case by simp
next
  case (Cons q qs)
  show ?case
  proof (cases "qs = []")
    case True
    with Cons.prems show ?thesis by simp
  next
    case False
    then have l: "last qs \<in> set qs" by simp
    from Cons.prems show ?thesis
      using False l Cons.IH by (auto simp add: less_imp_le)
  qed
qed

text \<open>
  Claim C3, as the spec states it: after every simulation step the obstacle sequence is
  sorted by decreasing \<open>x\<close>. A frame that starts with the single obstacle at \<open>x = 35\<close>
  (a sequence sorted in either direction) ends with the sequence \<open>[34, 60]\<close>: the new
  obstacle is appended, and it is the rightmost, so the sequence increases.
\<close>

theorem spawn_order_decreasing_counterexample:
  "update_game (physics_of_spec DEFAULT_CONFIG) (demo_state [new_Pipe 35 10 7] PLAYING)
       DEFAULT_CONFIG 0 (\<lambda>v. True) None
     = Inr ((demo_state [new_Pipe 34 10 7, new_Pipe 60 5 7] PLAYING) \<lparr> bird := demo_flying \<rparr>,
            None)
   \<and> map pipe_x [new_Pipe 34 10 7, new_Pipe 60 5 7] = [34, 60]
   \<and> \<not> sorted_wrt (\<ge>) (map pipe_x [new_Pipe 34 10 7, new_Pipe 60 5 7])"
  using demo_frame by (simp add: new_Pipe_def)

text \<open>
  Claim C3, amended: the obstacle sequence is in spawn order, oldest first, which is
  the order of strictly increasing \<open>x\<close>. If the sequence is strictly increasing in \<open>x\<close>
  before a call of \<open>update_game\<close> that returns, and \<open>pipe_spacing\<close> is not negative, it
  is strictly increasing after it. The sequence is never re-sorted: outside play it is
  unchanged, and in play it is, in its geometry, the surviving advanced obstacles in
  their old order, followed by at most one new obstacle, which stands at
  \<open>x = screen_width\<close>, to the right of all the others.
\<close>

theorem update_game_spawn_order:
  assumes "sorted_wrt (<) (map pipe_x (pipes s))"
    and "0 \<le> pipe_spacing cfg"
    and "update_game ph s cfg e io store = Inr (s', store')"
  shows "sorted_wrt (<) (map pipe_x (pipes s')) \<and>
    (status s \<noteq> PLAYING \<longrightarrow> pipes s' = pipes s) \<and>
    (status s = PLAYING \<longrightarrow>
       live_pipes s cfg =
         filter (\<lambda>p. \<not> pipe_x p \<le> - pipe_width cfg)
           (map (\<lambda>p. p\<lparr> pipe_x := pipe_x p - pipe_speed cfg \<rparr>) (pipes s)) \<and>
       (\<exists>new. length new \<le> 1 \<and>
          map geometry (pipes s') = map geometry (live_pipes s cfg) @ new \<and>
          (\<forall>q \<in> set new. fst q = screen_width cfg \<and>
             (\<forall>p \<in> set (live_pipes s cfg). pipe_x p < fst q))))"
proof (cases "status s = PLAYING")
  case False
  then have "s' = s" using assms(3) by (simp add: update_game_idle)
  with False assms(1) show ?thesis by simp
next
  case True
  define live where "live = live_pipes s cfg"
  have srt: "sorted_wrt (<) (map pipe_x live)"
    unfolding live_def using assms(1) by (rule live_pipes_sorted)
  have spelled: "live =
         filter (\<lambda>p. \<not> pipe_x p \<le> - pipe_width cfg)
           (map (\<lambda>p. p\<lparr> pipe_x := pipe_x p - pipe_speed cfg \<rparr>) (pipes s))"
    unfolding live_def by (rule live_pipes_spelled)
  have not_err: "frame_pipes s cfg e \<noteq> Inl ValueError"
    using assms(3) update_game_playing_error [OF True, of cfg e ValueError ph io store] by auto
  consider
    (keep) "frame_pipes s cfg e = Inr live"
  | (spawn) g where
      "frame_pipes s cfg e = Inr (live @ [new_Pipe (screen_width cfg) g (pipe_gap cfg)])"
      "spawn_due cfg live"
    using frame_pipes_cases [of s cfg e] not_err unfolding live_def by blast
  then have "sorted_wrt (<) (map pipe_x (pipes s')) \<and>
       (\<exists>new. length new \<le> 1 \<and>
          map geometry (pipes s') = map geometry live @ new \<and>
          (\<forall>q \<in> set new. fst q = screen_width cfg \<and> (\<forall>p \<in> set live. pipe_x p < fst q)))"
  proof cases
    case keep
    have ps: "pipes s' = scored ph (moved_bird ph s cfg) live"
      using update_game_fields [OF True keep, of ph io store] assms(3) by (metis Inr_inject prod.inject)
    have "map geometry (pipes s') = map geometry live @ []"
      by (simp add: ps geometry_scored)
    moreover have "sorted_wrt (<) (map pipe_x (pipes s'))"
      using srt by (simp add: ps pipe_x_scored)
    ultimately show ?thesis by (intro conjI exI [of _ "[]"]) simp_all
  next
    case spawn
    let ?new = "new_Pipe (screen_width cfg) g (pipe_gap cfg)"
    have ps: "pipes s' = scored ph (moved_bird ph s cfg) (live @ [?new])"
      using update_game_fields [OF True spawn(1), of ph io store] assms(3)
      by (metis Inr_inject prod.inject)
    have right: "\<forall>p \<in> set live. pipe_x p < screen_width cfg"
    proof
      fix p assume p: "p \<in> set live"
      then have "live \<noteq> []" by auto
      then have "pipe_x (last live) < screen_width cfg - pipe_spacing cfg"
        using spawn(2) by (simp add: spawn_due_def)
      moreover have "pipe_x p \<le> pipe_x (last live)" using srt p by (rule sorted_le_last)
      ultimately show "pipe_x p < screen_width cfg" using assms(2) by simp
    qed
    have geo: "map geometry (pipes s') = map geometry live @ [(screen_width cfg, g, pipe_gap cfg)]"
      by (simp add: ps geometry_scored) (simp add: geometry_def new_Pipe_def)
    have "map pipe_x (pipes s') = map pipe_x live @ [screen_width cfg]"
      by (simp add: ps pipe_x_scored) (simp add: new_Pipe_def)
    then have "sorted_wrt (<) (map pipe_x (pipes s'))"
      using srt right by (simp add: sorted_wrt_append)
    then show ?thesis
      using geo right by (intro conjI exI [of _ "[(screen_width cfg, g, pipe_gap cfg)]"]) simp_all
  qed
  then show ?thesis using True spelled unfolding live_def by simp
qed

theorem update_game_spawn_order_witness:
  "sorted_wrt (<) (map pipe_x [new_Pipe 34 10 7, new_Pipe 60 5 7]) \<and>
   (\<exists>new. length new \<le> 1 \<and>
      map geometry [new_Pipe 34 10 7, new_Pipe 60 5 7] =
        map geometry (live_pipes (demo_state [new_Pipe 35 10 7] PLAYING) DEFAULT_CONFIG) @ new) \<and>
   pipes (demo_state [new_Pipe 20 9 7, new_Pipe 45 10 7] DEAD) = [new_Pipe 20 9 7, new_Pipe 45 10 7]"
proof -
  have srt: "sorted_wrt (<) (map pipe_x (pipes (demo_state [new_Pipe 35 10 7] PLAYING)))"
    by (simp add: demo_state_def)
  have sp: "0 \<le> pipe_spacing DEFAULT_CONFIG" by (simp add: DEFAULT_CONFIG_def)
  have playing: "status (demo_state [new_Pipe 35 10 7] PLAYING) = PLAYING"
    by (simp add: demo_state_def)
  have post: "pipes ((demo_state [new_Pipe 34 10 7, new_Pipe 60 5 7] PLAYING)
                       \<lparr> bird := demo_flying \<rparr>) = [new_Pipe 34 10 7, new_Pipe 60 5 7]"
    by (simp add: demo_state_def)
  let ?d = "demo_state [new_Pipe 20 9 7, new_Pipe 45 10 7] DEAD"
  have srt_d: "sorted_wrt (<) (map pipe_x (pipes ?d))"
    by (simp add: demo_state_def new_Pipe_def)
  have dead: "status ?d \<noteq> PLAYING" by (simp add: demo_state_def)
  have idle: "update_game (physics_of_spec DEFAULT_CONFIG) ?d DEFAULT_CONFIG 0 (\<lambda>v. True) None
                = Inr (?d, None)"
    using dead by (rule update_game_idle)
  from update_game_spawn_order [OF srt_d sp idle] dead
  have "pipes ?d = [new_Pipe 20 9 7, new_Pipe 45 10 7]"
    by (simp add: demo_state_def)
  moreover from update_game_spawn_order [OF srt sp demo_frame, unfolded post] playing
  have "sorted_wrt (<) (map pipe_x [new_Pipe 34 10 7, new_Pipe 60 5 7]) \<and>
   (\<exists>new. length new \<le> 1 \<and>
      map geometry [new_Pipe 34 10 7, new_Pipe 60 5 7] =
        map geometry (live_pipes (demo_state [new_Pipe 35 10 7] PLAYING) DEFAULT_CONFIG) @ new)"
    by blast
  ultimately show ?thesis by simp
qed

subsection \<open>Retiring and spawning\<close>




subsection \<open>Collision\<close>

lemma isInsideObstacle_rows:
  "isInsideObstacle b p cfg \<longleftrightarrow>
     pipe_x p \<le> bird_x b \<and> bird_x b < pipe_x p + pipe_width cfg \<and>
     (bird_y b < of_int (gap_y p - gap_size p div 2) \<or>
      of_int (gap_y p + gap_size p div 2) < bird_y b)"
  by (simp add: isInsideObstacle_def band_top_def band_bottom_def)

text \<open>
  Claim C1. Scenario B of the spec: for an obstacle with gap centre 10 and gap size 7
  the gap band is rows 7 to 13 inclusive. A bird whose column lies inside the
  obstacle's horizontal span is inside the obstacle exactly when its row is below 7 or
  above 13, so with that obstacle on a field of height \<open>h\<close> it collides exactly when
  its row is below 0, above \<open>h - 1\<close>, below 7 or above 13: it does not collide at row 7
  or row 13, and it collides at row 6 and at row 14.
\<close>

theorem collision_band_10_7:
  assumes "gap_y p = 10" and "gap_size p = 7"
    and "pipe_x p \<le> bird_x b" and "bird_x b < pipe_x p + pipe_width cfg"
  shows "(isInsideObstacle b p cfg \<longleftrightarrow> bird_y b < 7 \<or> 13 < bird_y b) \<and>
         (checkCollision cfg b [p] h \<longleftrightarrow>
            bird_y b < 0 \<or> bird_y b > of_int h - 1 \<or> bird_y b < 7 \<or> 13 < bird_y b)"
proof -
  have band: "gap_y p - gap_size p div 2 = 7" "gap_y p + gap_size p div 2 = 13"
    using assms(1,2) by simp_all
  have inside: "isInsideObstacle b p cfg \<longleftrightarrow> bird_y b < 7 \<or> 13 < bird_y b"
    unfolding isInsideObstacle_rows band using assms(3,4) by simp
  then show ?thesis by (simp add: checkCollision_def)
qed

theorem collision_band_10_7_witness:
  "\<not> checkCollision DEFAULT_CONFIG \<lparr> bird_x = 10, bird_y = 7, velocity = 0 \<rparr> [new_Pipe 9 10 7] 20 \<and>
   \<not> checkCollision DEFAULT_CONFIG \<lparr> bird_x = 10, bird_y = 13, velocity = 0 \<rparr> [new_Pipe 9 10 7] 20 \<and>
   checkCollision DEFAULT_CONFIG \<lparr> bird_x = 10, bird_y = 6, velocity = 0 \<rparr> [new_Pipe 9 10 7] 20 \<and>
   checkCollision DEFAULT_CONFIG \<lparr> bird_x = 10, bird_y = 14, velocity = 0 \<rparr> [new_Pipe 9 10 7] 20"
proof -
  have g: "gap_y (new_Pipe 9 10 7) = 10" "gap_size (new_Pipe 9 10 7) = 7"
    by (simp_all add: new_Pipe_def)
  have c: "pipe_x (new_Pipe 9 10 7) \<le> bird_x \<lparr> bird_x = 10, bird_y = y, velocity = 0 \<rparr>"
    "bird_x \<lparr> bird_x = 10, bird_y = y, velocity = 0 \<rparr>
       < pipe_x (new_Pipe 9 10 7) + pipe_width DEFAULT_CONFIG" for y
    by (simp_all add: new_Pipe_def DEFAULT_CONFIG_def)
  note w = collision_band_10_7 [OF g c, THEN conjunct2, of _ 20]
  show ?thesis by (simp add: w)
qed

text \<open>
  The cell test of the renderer, \<^verbatim>\<open>_is_pipe_at\<close>, is not the collision test: it
  truncates \<open>gap_y - gap_size / 2\<close> after a true division, and for gap centre 10 and
  gap size 7 it draws row 6 as open, a row at which the bird collides.
\<close>

lemma is_pipe_at_row_6:
  "\<not> is_pipe_at (new_Pipe 9 10 7) DEFAULT_CONFIG 10 6 \<and>
   isInsideObstacle \<lparr> bird_x = 10, bird_y = 6, velocity = 0 \<rparr> (new_Pipe 9 10 7) DEFAULT_CONFIG"
  by (simp add: is_pipe_at_def gap_top_int gap_bottom_int new_Pipe_def DEFAULT_CONFIG_def
        isInsideObstacle_def band_top_def band_bottom_def)




subsection \<open>Spawning\<close>







subsection \<open>Pass events\<close>

lemma scored_exact:
  "scored ph b ps =
     map (\<lambda>p. if \<not> passed p \<and> check_pipe_passed ph b p then p\<lparr> passed := True \<rparr> else p) ps"
  by (simp add: scored_def pass_event_def mark_passed_def)

lemma scored_keeps_flagged:
  "list_all2 (\<lambda>p q. passed p \<longrightarrow> q = p) ps (scored ph b ps)"
  by (induction ps) (simp_all add: scored_def pass_event_def)

lemma live_pipes_flags:
  "map passed (live_pipes s cfg)
     = map passed (filter (\<lambda>p. pipe_x p - pipe_speed cfg > - pipe_width cfg) (pipes s))"
  by (simp add: live_pipes_def pipe_update_def filter_map comp_def)

lemma poll_signal_pipes_score:
  "poll_signal s f = Inr s2 \<Longrightarrow> pipes s2 = pipes s \<and> score s2 = score s"
  by (auto simp add: poll_signal_def split: option.splits if_splits sum.splits)

lemma handle_input_pipes_score:
  "pipes (handle_input s cfg key) = pipes s \<and> score (handle_input s cfg key) = score s"
  by (simp add: handle_input_def Let_def split: option.splits)

text \<open>
  Claim C6. A pass event of a frame is an obstacle of the frame's collection (the
  surviving advanced obstacles and the one spawned, if any) that is not flagged and
  that \<open>check_pipe_passed\<close> reports for the moved bird. In a \<open>PLAYING\<close> frame that
  returns, the obstacle list at the end is that collection with exactly the pass
  events flagged and every other obstacle as it was, and the score has grown by
  exactly the number of pass events: by 1 for each. An obstacle already flagged is no
  pass event, is not scored again and keeps its flag, and advancing and retiring
  change no flag, so each obstacle has at most one pass event. No other step sets or
  clears a flag or changes the score: a frame outside play, a key and the readiness
  poll leave obstacles and score as they are, and a reset empties the collection and
  sets the score to 0.
\<close>

theorem pass_flag_one_shot:
  "(status s = PLAYING \<longrightarrow> update_game ph s cfg e io store = Inr (s', store') \<longrightarrow>
      (\<exists>new. (new = [] \<or> (\<exists>g. new = [new_Pipe (screen_width cfg) g (pipe_gap cfg)])) \<and>
         map passed (live_pipes s cfg)
           = map passed (filter (\<lambda>p. pipe_x p - pipe_speed cfg > - pipe_width cfg) (pipes s)) \<and>
         pipes s' =
           map (\<lambda>p. if \<not> passed p \<and> check_pipe_passed ph (bird s') p
                     then p\<lparr> passed := True \<rparr> else p)
             (live_pipes s cfg @ new) \<and>
         score s' = score s +
           int (length (filter (\<lambda>p. \<not> passed p \<and> check_pipe_passed ph (bird s') p)
                  (live_pipes s cfg @ new))) \<and>
         list_all2 (\<lambda>p q. passed p \<longrightarrow> q = p) (live_pipes s cfg @ new) (pipes s'))) \<and>
   (status s \<noteq> PLAYING \<longrightarrow> update_game ph s cfg e io store = Inr (s, store)) \<and>
   pipes (handle_input s cfg key) = pipes s \<and> score (handle_input s cfg key) = score s \<and>
   (poll_signal s f = Inr s2 \<longrightarrow> pipes s2 = pipes s \<and> score s2 = score s) \<and>
   pipes (reset init s cfg) = [] \<and> score (reset init s cfg) = 0"
proof (intro conjI impI)
  assume playing: "status s = PLAYING"
    and ug: "update_game ph s cfg e io store = Inr (s', store')"
  have not_err: "frame_pipes s cfg e \<noteq> Inl ValueError"
    using ug update_game_playing_error [OF playing, of cfg e ValueError ph io store] by auto
  then obtain new where new: "new = [] \<or> (\<exists>g. new = [new_Pipe (screen_width cfg) g (pipe_gap cfg)])"
    and fp: "frame_pipes s cfg e = Inr (live_pipes s cfg @ new)"
    using frame_pipes_cases [of s cfg e] by (metis append_Nil2)
  have b: "bird s' = moved_bird ph s cfg"
    and ps: "pipes s' = scored ph (moved_bird ph s cfg) (live_pipes s cfg @ new)"
    and sc: "score s' = score s + pass_events ph (moved_bird ph s cfg) (live_pipes s cfg @ new)"
    using update_game_fields [OF playing fp, of ph io store] ug by (metis Inr_inject prod.inject)+
  show "\<exists>new. (new = [] \<or> (\<exists>g. new = [new_Pipe (screen_width cfg) g (pipe_gap cfg)])) \<and>
         map passed (live_pipes s cfg)
           = map passed (filter (\<lambda>p. pipe_x p - pipe_speed cfg > - pipe_width cfg) (pipes s)) \<and>
         pipes s' =
           map (\<lambda>p. if \<not> passed p \<and> check_pipe_passed ph (bird s') p
                     then p\<lparr> passed := True \<rparr> else p)
             (live_pipes s cfg @ new) \<and>
         score s' = score s +
           int (length (filter (\<lambda>p. \<not> passed p \<and> check_pipe_passed ph (bird s') p)
                  (live_pipes s cfg @ new))) \<and>
         list_all2 (\<lambda>p q. passed p \<longrightarrow> q = p) (live_pipes s cfg @ new) (pipes s')"
  proof (intro exI [of _ new] conjI)
    show "new = [] \<or> (\<exists>g. new = [new_Pipe (screen_width cfg) g (pipe_gap cfg)])" by (rule new)
    show "map passed (live_pipes s cfg)
           = map passed (filter (\<lambda>p. pipe_x p - pipe_speed cfg > - pipe_width cfg) (pipes s))"
      by (rule live_pipes_flags)
    show "pipes s' =
           map (\<lambda>p. if \<not> passed p \<and> check_pipe_passed ph (bird s') p
                     then p\<lparr> passed := True \<rparr> else p)
             (live_pipes s cfg @ new)"
      unfolding ps b by (rule scored_exact)
    show "score s' = score s +
           int (length (filter (\<lambda>p. \<not> passed p \<and> check_pipe_passed ph (bird s') p)
                  (live_pipes s cfg @ new)))"
      unfolding sc b pass_events_def pass_event_def ..
    show "list_all2 (\<lambda>p q. passed p \<longrightarrow> q = p) (live_pipes s cfg @ new) (pipes s')"
      unfolding ps by (rule scored_keeps_flagged)
  qed
next
  assume "status s \<noteq> PLAYING"
  then show "update_game ph s cfg e io store = Inr (s, store)" by (rule update_game_idle)
next
  show "pipes (handle_input s cfg key) = pipes s" "score (handle_input s cfg key) = score s"
    using handle_input_pipes_score by simp_all
next
  assume "poll_signal s f = Inr s2"
  then show "pipes s2 = pipes s" "score s2 = score s"
    using poll_signal_pipes_score by simp_all
next
  show "pipes (reset init s cfg) = []" "score (reset init s cfg) = 0"
    by (simp_all add: reset_def)
qed

theorem pass_flag_one_shot_witness:
  "(\<exists>new. (new = [] \<or> (\<exists>g. new = [new_Pipe (screen_width DEFAULT_CONFIG) g (pipe_gap DEFAULT_CONFIG)])) \<and>
     pipes demo_pass_after =
       map (\<lambda>p. if \<not> passed p \<and>
                    check_pipe_passed (physics_of_spec DEFAULT_CONFIG) (bird demo_pass_after) p
                 then p\<lparr> passed := True \<rparr> else p)
         (live_pipes demo_pass_before DEFAULT_CONFIG @ new) \<and>
     score demo_pass_after = score demo_pass_before +
       int (length (filter (\<lambda>p. \<not> passed p \<and>
                               check_pipe_passed (physics_of_spec DEFAULT_CONFIG)
                                 (bird demo_pass_after) p)
              (live_pipes demo_pass_before DEFAULT_CONFIG @ new)))) \<and>
   score demo_pass_after = score demo_pass_before + 1 \<and>
   update_game (physics_of_spec DEFAULT_CONFIG) (demo_state [new_Pipe 7 10 7] DEAD) DEFAULT_CONFIG 0
       (\<lambda>v. True) (Some 4)
     = Inr (demo_state [new_Pipe 7 10 7] DEAD, Some 4)"
proof -
  have playing: "status demo_pass_before = PLAYING"
    by (simp add: demo_pass_before_def demo_state_def)
  have dead: "status (demo_state [new_Pipe 7 10 7] DEAD) \<noteq> PLAYING"
    by (simp add: demo_state_def)
  have one: "score demo_pass_after = score demo_pass_before + 1"
    by (simp add: demo_pass_before_def demo_pass_after_def demo_state_def)
  from pass_flag_one_shot [where s = demo_pass_before and ph = "physics_of_spec DEFAULT_CONFIG"
        and cfg = DEFAULT_CONFIG and e = 0 and io = "\<lambda>v. True" and store = "Some 4",
        THEN conjunct1, rule_format, OF playing demo_pass_frame]
    pass_flag_one_shot [where s = "demo_state [new_Pipe 7 10 7] DEAD"
        and ph = "physics_of_spec DEFAULT_CONFIG" and cfg = DEFAULT_CONFIG and e = 0
        and io = "\<lambda>v. True" and store = "Some 4",
        THEN conjunct2, THEN conjunct1, rule_format, OF dead]
    one
  show ?thesis by blast
qed

subsection \<open>The high score\<close>
















subsection \<open>The prompt\<close>


text \<open>
  Claim C8. In the status \<open>PROMPTED\<close>, the decline keys \<open>n\<close> and \<open>N\<close> give the state
  with the ready-flag cleared and the status \<open>PLAYING\<close>, in which the readiness poll
  fires again on a signal file that reads \<open>ready\<close>; the confirm keys \<open>y\<close> and \<open>Y\<close>
  give the status \<open>EXITING\<close>.
\<close>

theorem handle_input_prompted:
  assumes "status s = PROMPTED"
  shows
    "(k = ''n'' \<or> k = ''N'' \<longrightarrow>
        handle_input s cfg (Some k) = s\<lparr> claude_ready := False, status := PLAYING \<rparr> \<and>
        status (handle_input s cfg (Some k)) = PLAYING \<and>
        \<not> claude_ready (handle_input s cfg (Some k)) \<and>
        poll_signal (handle_input s cfg (Some k)) (Some (Present (Content ''ready'')))
          = Inr (s\<lparr> claude_ready := True, status := PROMPTED \<rparr>)) \<and>
     (k = ''y'' \<or> k = ''Y'' \<longrightarrow>
        handle_input s cfg (Some k) = s\<lparr> status := EXITING \<rparr> \<and>
        status (handle_input s cfg (Some k)) = EXITING)"
proof (intro conjI impI)
  assume k: "k = ''n'' \<or> k = ''N''"
  then have low: "lower k = ''n''" using key_facts(1,2) by auto
  have nk: "k \<noteq> [CHR 0x03]" "k \<noteq> '' ''" using k by auto
  show hi: "handle_input s cfg (Some k) = s\<lparr> claude_ready := False, status := PLAYING \<rparr>"
    using assms nk by (simp add: handle_input_def Let_def low key_facts(5))
  show "status (handle_input s cfg (Some k)) = PLAYING"
    and "\<not> claude_ready (handle_input s cfg (Some k))"
    by (simp_all add: hi)
  have ready: "check_signal_file (Present (Content ''ready'')) = Inr True"
    by code_simp
  show "poll_signal (handle_input s cfg (Some k)) (Some (Present (Content ''ready'')))
          = Inr (s\<lparr> claude_ready := True, status := PROMPTED \<rparr>)"
    by (simp add: hi poll_signal_def ready)
next
  assume k: "k = ''y'' \<or> k = ''Y''"
  then have low: "lower k = ''y''" using key_facts(3,4) by auto
  have nk: "k \<noteq> [CHR 0x03]" "k \<noteq> '' ''" using k by auto
  show hi: "handle_input s cfg (Some k) = s\<lparr> status := EXITING \<rparr>"
    using assms nk by (simp add: handle_input_def Let_def low key_facts(5))
  show "status (handle_input s cfg (Some k)) = EXITING" by (simp add: hi)
qed


theorem handle_input_prompted_witness:
  "handle_input (demo_state [new_Pipe 30 10 7] PROMPTED \<lparr> claude_ready := True \<rparr>)
      DEFAULT_CONFIG (Some ''N'')
     = demo_state [new_Pipe 30 10 7] PLAYING \<and>
   status (handle_input (demo_state [new_Pipe 30 10 7] PROMPTED \<lparr> claude_ready := True \<rparr>)
      DEFAULT_CONFIG (Some ''y'')) = EXITING"
proof -
  let ?s = "demo_state [new_Pipe 30 10 7] PROMPTED \<lparr> claude_ready := True \<rparr>"
  have p: "status ?s = PROMPTED" by (simp add: demo_state_def)
  from handle_input_prompted [OF p, of "''N''" DEFAULT_CONFIG]
       handle_input_prompted [OF p, of "''y''" DEFAULT_CONFIG]
  show ?thesis by (simp add: demo_state_def)
qed


subsection \<open>Reading the readiness signal\<close>

text \<open>
  Claim C9 says that \<open>check_signal_file\<close> never surfaces an exception. On a signal
  file whose bytes are not valid in the default encoding, \<^verbatim>\<open>path.read_text()\<close> raises
  \<^verbatim>\<open>UnicodeDecodeError\<close>, which \<^verbatim>\<open>except (OSError, IOError)\<close> does not catch: the
  call raises.
\<close>

theorem check_signal_file_raises:
  "check_signal_file (Present ReadRaisesUnicodeDecodeError) = Inl UnicodeDecodeError"
  by (simp add: check_signal_file_def check_signal_file_body_def path_exists_def read_text_def)


text \<open>
  On every other content of the signal path the function returns, and its result is
  true exactly when the file exists, is readable, and reads \<open>ready\<close> once stripped.
\<close>

lemma check_signal_file_otherwise:
  assumes "f \<noteq> Present ReadRaisesUnicodeDecodeError"
  shows "check_signal_file f = Inr (\<exists>t. f = Present (Content t) \<and> strip t = ''ready'')"
proof (cases f)
  case Absent
  then show ?thesis
    by (simp add: check_signal_file_def check_signal_file_body_def path_exists_def)
next
  case ExistsRaisesOSError
  then show ?thesis
    by (simp add: check_signal_file_def check_signal_file_body_def path_exists_def)
next
  case (Present r)
  with assms show ?thesis
    by (cases r)
      (simp_all add: check_signal_file_def check_signal_file_body_def path_exists_def
         read_text_def)
qed

lemma strip_examples:
  "strip ''ready'' = ''ready''"
  "strip [CHR ''r'', CHR ''e'', CHR ''a'', CHR ''d'', CHR ''y'', CHR 0x0A] = ''ready''"
  "strip ''  ready  '' = ''ready''"
  "strip ''not ready'' \<noteq> ''ready''"
  by code_simp+

end
